theory Spec2Isabelle
  imports Main "HOL-Library.Multiset"
begin

section \<open>Exceptions\<close>

text \<open>The exceptions of the Python code that the model keeps track of.\<close>

datatype exn = IndexError | ValueError | KeyError | OverflowError

section \<open>The record store\<close>

text \<open>
  The bot of \<^verbatim>\<open>src/bot.py\<close> keeps two SQLite tables. A row of \<^verbatim>\<open>users\<close> is a record
  with the columns of the \<^verbatim>\<open>CREATE TABLE\<close> statement, in the same order (the column
  \<^verbatim>\<open>id\<close> is called \<open>db_id\<close>, as the Python parameter \<^verbatim>\<open>user_db_id\<close> names it); the
  nullable column \<^verbatim>\<open>santa_id\<close> is an option. The table \<^verbatim>\<open>event_settings\<close> holds at most
  the one row with \<^verbatim>\<open>id = 1\<close>. The table \<^verbatim>\<open>users\<close> is a list in storage order;
  \<open>sequence\<close> is the counter SQLite keeps for an \<^verbatim>\<open>AUTOINCREMENT\<close> key.
\<close>

text \<open>
  An \<^verbatim>\<open>INTEGER\<close> of SQLite has 64 bits. Binding a larger Python integer to a statement
  raises \<^verbatim>\<open>OverflowError\<close>. The ids held in the store and the ids the transport delivers
  are in this range; a number typed into an admin command need not be.
\<close>

definition sqlite_integer :: "int \<Rightarrow> bool" where
  "sqlite_integer k = (- (2 ^ 63) \<le> k \<and> k < 2 ^ 63)"

record user =
  db_id :: int
  telegram_id :: int
  fio :: string
  group_name :: string
  preferences :: string
  santa_id :: "int option"
  gift_delivered :: bool
  gift_received :: bool

record event_settings =
  registration_open :: bool
  event_started :: bool

record database =
  users :: "user list"
  settings :: "event_settings option"
  sequence :: int

text \<open>
  By the schema \<^verbatim>\<open>id\<close> is a primary key: the theorems about the assignment assume
  \<open>distinct (map db_id (users d))\<close>.
\<close>

definition select_by_id :: "int \<Rightarrow> database \<Rightarrow> user option" where
  "select_by_id k d = find (\<lambda>r. db_id r = k) (users d)"

definition select_by_telegram_id :: "int \<Rightarrow> database \<Rightarrow> user option" where
  "select_by_telegram_id t d = find (\<lambda>r. telegram_id r = t) (users d)"

definition is_registration_open :: "database \<Rightarrow> bool" where
  "is_registration_open d =
     (case settings d of Some r \<Rightarrow> registration_open r | None \<Rightarrow> False)"

definition is_event_started :: "database \<Rightarrow> bool" where
  "is_event_started d =
     (case settings d of Some r \<Rightarrow> event_started r | None \<Rightarrow> False)"

definition get_all_users :: "database \<Rightarrow> user list" where
  "get_all_users d = users d"

definition close_registration :: "database \<Rightarrow> database" where
  "close_registration d =
     d\<lparr>settings := map_option (\<lambda>r. r\<lparr>registration_open := False\<rparr>) (settings d)\<rparr>"

definition open_registration :: "database \<Rightarrow> database" where
  "open_registration d =
     d\<lparr>settings := map_option (\<lambda>r. r\<lparr>registration_open := True\<rparr>) (settings d)\<rparr>"

subsection \<open>The assignment engine\<close>

text \<open>
  \<^verbatim>\<open>UPDATE users SET santa_id = ? WHERE id = ?\<close> with the parameters
  \<^verbatim>\<open>(receiver, giver)\<close>.
\<close>

definition update_santa_id :: "int \<Rightarrow> int \<Rightarrow> user list \<Rightarrow> user list" where
  "update_santa_id receiver giver us =
     map (\<lambda>r. if db_id r = giver then r\<lparr>santa_id := Some receiver\<rparr> else r) us"

text \<open>
  The body of the loop \<^verbatim>\<open>for i in range(len(users))\<close> of \<^verbatim>\<open>start_santa\<close>, where
  \<open>p\<close> is the shuffled list of ids. Both indices are below \<open>length p\<close> whenever the loop
  runs.
\<close>

definition assign_step :: "int list \<Rightarrow> user list \<Rightarrow> nat \<Rightarrow> user list" where
  "assign_step p us i =
     (let giver = p ! i; receiver = p ! ((i + 1) mod length p)
      in update_santa_id receiver giver us)"

text \<open>
  \<^verbatim>\<open>start_santa\<close>. \<^verbatim>\<open>random.shuffle\<close> is the parameter \<open>shuffle\<close>: the theorems
  assume of it only that its result is a rearrangement of its argument. The result is
  the store after the call and the returned count.
\<close>

definition start_santa :: "(int list \<Rightarrow> int list) \<Rightarrow> database \<Rightarrow> database \<times> nat" where
  "start_santa shuffle d =
     (let ids = map db_id (users d)
      in if length ids < 2 then (d, length ids)
         else let p = shuffle ids;
                  us = foldl (assign_step p) (users d) [0..<length p]
              in (d\<lparr>users := us,
                    settings := map_option (\<lambda>r. r\<lparr>event_started := True\<rparr>) (settings d)\<rparr>,
                  length p))"

text \<open>The receiver mapping stored in the table: the \<^verbatim>\<open>santa_id\<close> of the row with id \<open>k\<close>.\<close>

definition recipient_of :: "database \<Rightarrow> int \<Rightarrow> int option" where
  "recipient_of d k = (case select_by_id k d of Some r \<Rightarrow> santa_id r | None \<Rightarrow> None)"

subsection \<open>Deleting and marking\<close>

text \<open>
  \<^verbatim>\<open>delete_user\<close>: the row is read, deleted if it is there, and returned. The three
  operations of this subsection bind a number that comes from a command text.
\<close>

definition delete_user :: "int \<Rightarrow> database \<Rightarrow> exn + (user option \<times> database)" where
  "delete_user k d =
     (if \<not> sqlite_integer k then Inl OverflowError
      else case select_by_id k d of
             Some user_info \<Rightarrow>
               Inr (Some user_info, d\<lparr>users := filter (\<lambda>r. db_id r \<noteq> k) (users d)\<rparr>)
           | None \<Rightarrow> Inr (None, d))"

text \<open>
  \<^verbatim>\<open>mark_gift_delivered\<close> and \<^verbatim>\<open>mark_gift_received\<close>: the \<^verbatim>\<open>UPDATE\<close>, and
  \<^verbatim>\<open>cursor.rowcount > 0\<close> as the returned success.
\<close>

definition mark_gift_delivered :: "int \<Rightarrow> database \<Rightarrow> exn + (bool \<times> database)" where
  "mark_gift_delivered k d =
     (if \<not> sqlite_integer k then Inl OverflowError
      else Inr (list_ex (\<lambda>r. db_id r = k) (users d),
                d\<lparr>users := map (\<lambda>r. if db_id r = k then r\<lparr>gift_delivered := True\<rparr> else r)
                               (users d)\<rparr>))"

definition mark_gift_received :: "int \<Rightarrow> database \<Rightarrow> exn + (bool \<times> database)" where
  "mark_gift_received k d =
     (if \<not> sqlite_integer k then Inl OverflowError
      else Inr (list_ex (\<lambda>r. db_id r = k) (users d),
                d\<lparr>users := map (\<lambda>r. if db_id r = k then r\<lparr>gift_received := True\<rparr> else r)
                               (users d)\<rparr>))"

section \<open>Text handling\<close>

text \<open>
  Message texts are strings of 8-bit characters, one \<open>char\<close> for one code point. The
  three Python string operations the router and the admin handler use are written out:
  \<^verbatim>\<open>str.strip()\<close>, \<^verbatim>\<open>str.split()\<close> and \<^verbatim>\<open>str.startswith\<close>, with the
  characters below 256 for which \<^verbatim>\<open>str.isspace()\<close> holds.
\<close>

definition isspace :: "char \<Rightarrow> bool" where
  "isspace c = (of_char c \<in> set [9, 10, 11, 12, 13, 28, 29, 30, 31, 32, 133, 160 :: nat])"

definition strip :: "string \<Rightarrow> string" where
  "strip s = rev (dropWhile isspace (rev (dropWhile isspace s)))"

definition startswith :: "string \<Rightarrow> string \<Rightarrow> bool" where
  "startswith s prefix = (take (length prefix) s = prefix)"

fun split_from :: "string \<Rightarrow> string \<Rightarrow> string list" where
  "split_from word [] = (if word = [] then [] else [word])"
| "split_from word (c # cs) =
     (if isspace c then (if word = [] then split_from [] cs else word # split_from [] cs)
      else split_from (word @ [c]) cs)"

definition split :: "string \<Rightarrow> string list" where
  "split s = split_from [] s"

definition item :: "'a list \<Rightarrow> nat \<Rightarrow> exn + 'a" where
  "item xs i = (if i < length xs then Inr (xs ! i) else Inl IndexError)"

text \<open>
  \<^verbatim>\<open>int(s)\<close> for a string: surrounding whitespace is dropped, one sign is allowed, and
  the rest is a non-empty run of decimal digits in which single underscores may stand
  between digits. Anything else raises \<^verbatim>\<open>ValueError\<close>.
\<close>

definition isdigit :: "char \<Rightarrow> bool" where
  "isdigit c = (48 \<le> (of_char c :: nat) \<and> (of_char c :: nat) \<le> 57)"

fun groups_from :: "string \<Rightarrow> string \<Rightarrow> string list" where
  "groups_from g [] = [g]"
| "groups_from g (c # cs) =
     (if c = CHR ''_'' then g # groups_from [] cs else groups_from (g @ [c]) cs)"

definition decimal :: "string \<Rightarrow> int" where
  "decimal s = foldl (\<lambda>a c. 10 * a + (int (of_char c) - 48)) 0 s"

definition py_int :: "string \<Rightarrow> exn + int" where
  "py_int s =
     (let t = strip s;
          negative = (take 1 t = ''-'');
          body = (if take 1 t = ''-'' \<or> take 1 t = ''+'' then drop 1 t else t);
          gs = groups_from [] body
      in if list_all (\<lambda>g. g \<noteq> [] \<and> list_all isdigit g) gs
         then Inr ((if negative then - 1 else 1) * decimal (concat gs))
         else Inl ValueError)"

text \<open>\<^verbatim>\<open>int(text.split()[1])\<close>, the expression every numeric admin command evaluates.\<close>

definition numeric_argument :: "string \<Rightarrow> exn + int" where
  "numeric_argument text =
     (case item (split text) 1 of Inl e \<Rightarrow> Inl e | Inr a \<Rightarrow> py_int a)"

section \<open>The bot\<close>

text \<open>
  The wording of an outgoing message is outside the model: a message is the template the
  code fills in, with the values it fills in. The comments give the call site.
\<close>

datatype msg =
    NoAdminRights
  | AlreadyRegistered string int
  | RegistrationClosed
  | Welcome "string option"
  | Assignment int "string option"
  | NoAssignment
  | Stats nat nat nat bool bool
  | NoUsers
  | UserList "(string \<times> int \<times> string \<times> bool \<times> bool) list"
  | RegistrationClosedOk
  | RegistrationOpenedOk
  | DrawDone nat
  | NeedTwoParticipants
  | UserDeleted int string string
  | RerunAdvice
  | DeleteNotFound
  | UsageDel
  | GiftMarked int
  | UserNotFound
  | UsageGift
  | ReceivedMarked int
  | UsageReceived
  | HelpAdmin
  | GiftDeliveredNotice
  | AskGroup
  | AskPreferences
  | RegistrationDone int string string
  | AlreadyRegisteredShort
  | UseStart
  | Help

text \<open>
  A conversation session is the dictionary stored in \<^verbatim>\<open>self.user_data[user_id]\<close>: its
  key \<^verbatim>\<open>"step"\<close> is always present, the keys \<^verbatim>\<open>"fio"\<close> and \<^verbatim>\<open>"group"\<close> once they
  have been collected.
\<close>

datatype step = Fio | Group | Preferences

record session =
  sess_step :: step
  sess_fio :: "string option"
  sess_group :: "string option"

text \<open>
  The state holds the two attributes of the bot object that change, the store, and the list
  of the calls of \<^verbatim>\<open>send_message\<close> made so far (chat id and message), oldest first.
\<close>

record bot =
  last_update_id :: int
  user_data :: "int \<rightharpoonup> session"
  db :: database
  outbox :: "(int \<times> msg) list"

text \<open>
  \<^verbatim>\<open>send_message\<close> hands the message to the transport. Its boolean result is ignored at
  every call site, so the model records the call only.
\<close>

definition send_message :: "int \<Rightarrow> msg \<Rightarrow> bot \<Rightarrow> bot" where
  "send_message chat m s = s\<lparr>outbox := outbox s @ [(chat, m)]\<rparr>"

text \<open>The parameters \<^verbatim>\<open>get_updates\<close> sends with its poll.\<close>

record poll_params =
  offset :: int
  timeout :: int
  limit :: int

definition get_updates_params :: "bot \<Rightarrow> poll_params" where
  "get_updates_params s = \<lparr>offset = last_update_id s + 1, timeout = 10, limit = 100\<rparr>"

subsection \<open>The assignment view and the notifications\<close>

definition show_assignment :: "int \<Rightarrow> int \<Rightarrow> bot \<Rightarrow> bot" where
  "show_assignment chat user_db_id s =
     (case select_by_id user_db_id (db s) of
        None \<Rightarrow> send_message chat NoAssignment s
      | Some r \<Rightarrow>
          (case santa_id r of
             None \<Rightarrow> send_message chat NoAssignment s
           | Some receiver_id \<Rightarrow>
               if receiver_id = 0 then send_message chat NoAssignment s
               else send_message chat
                      (Assignment receiver_id
                         (map_option preferences (select_by_id receiver_id (db s)))) s))"

definition notify_all_users :: "bot \<Rightarrow> bot" where
  "notify_all_users s =
     foldl (\<lambda>s' u. show_assignment (telegram_id u) (db_id u) s') s (get_all_users (db s))"

text \<open>
  \<^verbatim>\<open>notify_gift_delivered\<close>: if some row has \<^verbatim>\<open>santa_id = user_db_id\<close>, the notice goes to
  the \<^verbatim>\<open>telegram_id\<close> of the row with \<^verbatim>\<open>id = user_db_id\<close>.
\<close>

definition notify_gift_delivered :: "int \<Rightarrow> bot \<Rightarrow> bot \<times> exn option" where
  "notify_gift_delivered user_db_id s =
     (if \<not> sqlite_integer user_db_id then (s, Some OverflowError)
      else case find (\<lambda>r. santa_id r = Some user_db_id) (users (db s)) of
             None \<Rightarrow> (s, None)
           | Some giver_result \<Rightarrow>
               (case select_by_id user_db_id (db s) of
                  None \<Rightarrow> (s, None)
                | Some receiver \<Rightarrow>
                    (send_message (telegram_id receiver) GiftDeliveredNotice s, None)))"

subsection \<open>Registration\<close>

definition handle_start :: "int \<Rightarrow> int \<Rightarrow> string option \<Rightarrow> bot \<Rightarrow> bot" where
  "handle_start chat user_id user_name s =
     (case select_by_telegram_id user_id (db s) of
        Some existing_user \<Rightarrow>
          if is_event_started (db s) then show_assignment chat (db_id existing_user) s
          else send_message chat
                 (AlreadyRegistered (fio existing_user) (db_id existing_user)) s
      | None \<Rightarrow>
          if \<not> is_registration_open (db s) then send_message chat RegistrationClosed s
          else (send_message chat (Welcome user_name) s)
                 \<lparr>user_data := (user_data s)
                    (user_id \<mapsto> \<lparr>sess_step = Fio, sess_fio = None, sess_group = None\<rparr>)\<rparr>)"

text \<open>
  The \<^verbatim>\<open>INSERT\<close> of a finished registration. A second row for a \<^verbatim>\<open>telegram_id\<close> is the
  \<^verbatim>\<open>IntegrityError\<close> of the source, here \<open>None\<close>. The new key is one more than the largest
  key the table has ever held.
\<close>

definition insert_user :: "int \<Rightarrow> string \<Rightarrow> string \<Rightarrow> string \<Rightarrow> database \<Rightarrow> (int \<times> database) option" where
  "insert_user tid f g p d =
     (if list_ex (\<lambda>r. telegram_id r = tid) (users d) then None
      else let user_db_id = foldl max (sequence d) (map db_id (users d)) + 1
           in Some (user_db_id,
                d\<lparr>users := users d @
                      [\<lparr>db_id = user_db_id, telegram_id = tid, fio = f, group_name = g,
                        preferences = p, santa_id = None, gift_delivered = False,
                        gift_received = False\<rparr>],
                  sequence := user_db_id\<rparr>))"

text \<open>
  \<^verbatim>\<open>handle_message\<close>. Reading \<^verbatim>\<open>user_info["fio"]\<close> or \<^verbatim>\<open>user_info["group"]\<close> from a
  session that lacks the key raises \<^verbatim>\<open>KeyError\<close> before anything is written; the second
  component of the result is the exception that left the handler, if any.
\<close>

definition handle_message :: "int \<Rightarrow> int \<Rightarrow> string option \<Rightarrow> string \<Rightarrow> bot \<Rightarrow> bot \<times> exn option" where
  "handle_message chat user_id user_name text s =
     (case user_data s user_id of
        None \<Rightarrow> (send_message chat UseStart s, None)
      | Some sess \<Rightarrow>
          (case sess_step sess of
             Fio \<Rightarrow>
               (send_message chat AskGroup
                  (s\<lparr>user_data := (user_data s)
                       (user_id \<mapsto> sess\<lparr>sess_fio := Some text, sess_step := Group\<rparr>)\<rparr>),
                None)
           | Group \<Rightarrow>
               (send_message chat AskPreferences
                  (s\<lparr>user_data := (user_data s)
                       (user_id \<mapsto> sess\<lparr>sess_group := Some text, sess_step := Preferences\<rparr>)\<rparr>),
                None)
           | Preferences \<Rightarrow>
               (case sess_fio sess of
                  None \<Rightarrow> (s, Some KeyError)
                | Some f \<Rightarrow>
                    (case sess_group sess of
                       None \<Rightarrow> (s, Some KeyError)
                     | Some g \<Rightarrow>
                         (let s1 = (case insert_user user_id f g text (db s) of
                                      Some (user_db_id, d) \<Rightarrow>
                                        send_message chat (RegistrationDone user_db_id f g)
                                          (s\<lparr>db := d\<rparr>)
                                    | None \<Rightarrow> send_message chat AlreadyRegisteredShort s)
                          in (s1\<lparr>user_data := (user_data s1)(user_id := None)\<rparr>, None))))))"

subsection \<open>The admin command handler\<close>

text \<open>
  \<^verbatim>\<open>ORGANIZER_IDS\<close> comes from the configuration module, which is not part of the
  sources: it is the parameter \<open>organizers\<close>. The branches follow the \<^verbatim>\<open>if\<close>/\<^verbatim>\<open>elif\<close>
  chain of the source in its order; a text that matches no branch falls through and
  nothing happens. The \<^verbatim>\<open>try\<close> blocks catch \<^verbatim>\<open>IndexError\<close> and \<^verbatim>\<open>ValueError\<close> only,
  so an \<^verbatim>\<open>OverflowError\<close> of the store leaves the handler.
\<close>

definition handle_admin_commands ::
  "int list \<Rightarrow> (int list \<Rightarrow> int list) \<Rightarrow> int \<Rightarrow> string \<Rightarrow> int \<Rightarrow> bot \<Rightarrow> bot \<times> exn option" where
  "handle_admin_commands organizers shuffle chat text user_id s =
     (if user_id \<notin> set organizers then (send_message chat NoAdminRights s, None)
      else if text = ''/stats'' then
        (send_message chat
           (Stats (length (users (db s)))
                  (length (filter gift_delivered (users (db s))))
                  (length (filter gift_received (users (db s))))
                  (is_registration_open (db s)) (is_event_started (db s))) s, None)
      else if text = ''/users'' then
        (if get_all_users (db s) = [] then (send_message chat NoUsers s, None)
         else (send_message chat
                 (UserList (map (\<lambda>u. (fio u, db_id u, group_name u,
                                       gift_delivered u, gift_received u))
                              (get_all_users (db s)))) s, None))
      else if text = ''/close'' then
        (send_message chat RegistrationClosedOk (s\<lparr>db := close_registration (db s)\<rparr>), None)
      else if text = ''/open'' then
        (send_message chat RegistrationOpenedOk (s\<lparr>db := open_registration (db s)\<rparr>), None)
      else if text = ''/start_event'' then
        (case start_santa shuffle (db s) of
           (d, cnt) \<Rightarrow>
             if cnt > 1
             then (notify_all_users (send_message chat (DrawDone cnt) (s\<lparr>db := d\<rparr>)), None)
             else (send_message chat NeedTwoParticipants (s\<lparr>db := d\<rparr>), None))
      else if startswith text ''/del '' then
        (case numeric_argument text of
           Inl e \<Rightarrow> (send_message chat UsageDel s, None)
         | Inr user_id_to_delete \<Rightarrow>
             (case delete_user user_id_to_delete (db s) of
                Inl e \<Rightarrow> (s, Some e)
              | Inr (Some user_info, d) \<Rightarrow>
                  (let s1 = send_message chat
                              (UserDeleted (db_id user_info) (fio user_info)
                                 (group_name user_info)) (s\<lparr>db := d\<rparr>)
                   in if is_event_started (db s1)
                      then (send_message chat RerunAdvice s1, None)
                      else (s1, None))
              | Inr (None, d) \<Rightarrow> (send_message chat DeleteNotFound (s\<lparr>db := d\<rparr>), None)))
      else if startswith text ''/gift '' then
        (case numeric_argument text of
           Inl e \<Rightarrow> (send_message chat UsageGift s, None)
         | Inr user_id_to_mark \<Rightarrow>
             (case mark_gift_delivered user_id_to_mark (db s) of
                Inl e \<Rightarrow> (s, Some e)
              | Inr (success, d) \<Rightarrow>
                  if success
                  then notify_gift_delivered user_id_to_mark
                         (send_message chat (GiftMarked user_id_to_mark) (s\<lparr>db := d\<rparr>))
                  else (send_message chat UserNotFound (s\<lparr>db := d\<rparr>), None)))
      else if startswith text ''/received '' then
        (case numeric_argument text of
           Inl e \<Rightarrow> (send_message chat UsageReceived s, None)
         | Inr user_id_to_mark \<Rightarrow>
             (case mark_gift_received user_id_to_mark (db s) of
                Inl e \<Rightarrow> (s, Some e)
              | Inr (success, d) \<Rightarrow>
                  if success
                  then (send_message chat (ReceivedMarked user_id_to_mark) (s\<lparr>db := d\<rparr>), None)
                  else (send_message chat UserNotFound (s\<lparr>db := d\<rparr>), None)))
      else if text = ''/help_admin'' then (send_message chat HelpAdmin s, None)
      else (s, None))"

subsection \<open>The router and the ingestion loop\<close>

text \<open>
  An update of the transport: its id and, when the key \<^verbatim>\<open>"message"\<close> is present, the
  chat id, the sender id, the sender's first name and the text (both optional).
\<close>

record message =
  chat_id :: int
  from_id :: int
  first_name :: "string option"
  msg_text :: "string option"

record update =
  update_id :: int
  message :: "message option"

definition admin_tokens :: "string list" where
  "admin_tokens = [''/stats'', ''/users'', ''/close'', ''/open'', ''/start_event'',
                   ''/del'', ''/gift'', ''/received'', ''/help_admin'']"

text \<open>
  The body of the loop of \<^verbatim>\<open>process_updates\<close> after the cursor has been set: what is
  done with one update. \<open>text_of\<close> is \<^verbatim>\<open>message.get("text", "").strip()\<close>.
\<close>

definition text_of :: "message \<Rightarrow> string" where
  "text_of m = strip (case msg_text m of Some t \<Rightarrow> t | None \<Rightarrow> [])"

definition dispatch ::
  "int list \<Rightarrow> (int list \<Rightarrow> int list) \<Rightarrow> update \<Rightarrow> bot \<Rightarrow> bot \<times> exn option" where
  "dispatch organizers shuffle u s =
     (case message u of
        None \<Rightarrow> (s, None)
      | Some m \<Rightarrow>
          (let text = text_of m
           in if startswith text ''/'' \<and> list_ex (startswith text) admin_tokens
              then handle_admin_commands organizers shuffle (chat_id m) text (from_id m) s
              else if text = ''/start''
              then (handle_start (chat_id m) (from_id m) (first_name m) s, None)
              else if text = ''/help'' then (send_message (chat_id m) Help s, None)
              else handle_message (chat_id m) (from_id m) (first_name m) text s))"

text \<open>
  \<^verbatim>\<open>process_updates\<close>: for each update in order, the cursor is set and then the update is
  dispatched. An exception ends the loop; the state is the one reached when it was raised.
\<close>

fun process_updates ::
  "int list \<Rightarrow> (int list \<Rightarrow> int list) \<Rightarrow> update list \<Rightarrow> bot \<Rightarrow> bot \<times> exn option" where
  "process_updates organizers shuffle [] s = (s, None)"
| "process_updates organizers shuffle (u # us) s =
     (case dispatch organizers shuffle u (s\<lparr>last_update_id := update_id u\<rparr>) of
        (s', Some e) \<Rightarrow> (s', Some e)
      | (s', None) \<Rightarrow> process_updates organizers shuffle us s')"

section \<open>Example states\<close>

text \<open>
  Three participants A, B and C with the ids 1, 2 and 3, before a draw; a shuffle fixed to
  the order 2, 3, 1; and the store after that draw, with A's gift marked as delivered.
\<close>

definition participant :: "int \<Rightarrow> int \<Rightarrow> string \<Rightarrow> int option \<Rightarrow> bool \<Rightarrow> user" where
  "participant k t name r delivered =
     \<lparr>db_id = k, telegram_id = t, fio = name, group_name = ''G'', preferences = ''tea'',
      santa_id = r, gift_delivered = delivered, gift_received = False\<rparr>"

definition registered_abc :: database where
  "registered_abc =
     \<lparr>users = [participant 1 101 ''A'' None False, participant 2 102 ''B'' None False,
               participant 3 103 ''C'' None False],
      settings = Some \<lparr>registration_open = True, event_started = False\<rparr>,
      sequence = 3\<rparr>"

definition fixed_order :: "int list \<Rightarrow> int list" where
  "fixed_order ids = [2, 3, 1]"

definition reversed_order :: "int list \<Rightarrow> int list" where
  "reversed_order ids = [3, 2, 1]"

definition drawn_abc :: database where
  "drawn_abc =
     \<lparr>users = [participant 1 101 ''A'' (Some 2) True, participant 2 102 ''B'' (Some 3) False,
               participant 3 103 ''C'' (Some 1) False],
      settings = Some \<lparr>registration_open = False, event_started = True\<rparr>,
      sequence = 3\<rparr>"

definition only_a :: database where
  "only_a =
     \<lparr>users = [participant 1 101 ''A'' None False],
      settings = Some \<lparr>registration_open = True, event_started = False\<rparr>,
      sequence = 1\<rparr>"

definition bot_with :: "database \<Rightarrow> bot" where
  "bot_with d = \<lparr>last_update_id = 0, user_data = Map.empty, db = d, outbox = []\<rparr>"

text \<open>A bot in which the sender 555 has answered two questions of the dialogue.\<close>

definition mid_dialogue :: bot where
  "mid_dialogue =
     \<lparr>last_update_id = 7,
      user_data = [555 \<mapsto> \<lparr>sess_step = Preferences, sess_fio = Some ''D'',
                              sess_group = Some ''G''\<rparr>],
      db = registered_abc, outbox = []\<rparr>"

text \<open>An update carrying a text message; 900 is the organizer of the examples.\<close>

definition text_update :: "int \<Rightarrow> int \<Rightarrow> string \<Rightarrow> update" where
  "text_update k sender t =
     \<lparr>update_id = k,
      message = Some \<lparr>chat_id = sender, from_id = sender, first_name = None,
                      msg_text = Some t\<rparr>\<rparr>"

section \<open>Results about the record store\<close>

subsection \<open>What the assignment loop computes\<close>

text \<open>
  After the loop has run over the positions \<open>js\<close>, a row whose id occurs in \<open>p\<close> at one of
  them carries the successor of the last such position; every other row is untouched.
\<close>

definition assigned :: "int list \<Rightarrow> nat list \<Rightarrow> user \<Rightarrow> user" where
  "assigned p js r =
     (let hits = filter (\<lambda>i. p ! i = db_id r) js
      in if hits = [] then r
         else r\<lparr>santa_id := Some (p ! ((last hits + 1) mod length p))\<rparr>)"

lemma assigned_db_id [simp]: "db_id (assigned p js r) = db_id r"
  by (simp add: assigned_def Let_def)

lemma assigned_frame [simp]: "(assigned p js r)\<lparr>santa_id := x\<rparr> = r\<lparr>santa_id := x\<rparr>"
  by (simp add: assigned_def Let_def)

lemma assigned_snoc:
  "assigned p (js @ [i]) r =
     (if p ! i = db_id r then r\<lparr>santa_id := Some (p ! ((i + 1) mod length p))\<rparr>
      else assigned p js r)"
  by (simp add: assigned_def Let_def)

lemma foldl_assign_step:
  "foldl (assign_step p) us js = map (assigned p js) us"
proof (induction js rule: rev_induct)
  case Nil
  show ?case by (simp add: assigned_def)
next
  case (snoc i js)
  have "assign_step p (map (assigned p js) us) i = map (assigned p (js @ [i])) us"
    unfolding assign_step_def update_santa_id_def Let_def map_map
    by (rule map_cong) (auto simp: assigned_snoc)
  then show ?case by (simp add: snoc)
qed

lemma filter_index_distinct:
  assumes "distinct p" "i < length p"
  shows "filter (\<lambda>j. p ! j = p ! i) [0..<length p] = [i]"
proof -
  have "filter (\<lambda>j. p ! j = p ! i) [0..<length p] = filter (\<lambda>j. j = i) [0..<length p]"
    using assms by (intro filter_cong) (auto simp: nth_eq_iff_index_eq)
  also have "\<dots> = [i]"
    using assms(2) by (induction p rule: rev_induct) (auto simp: less_Suc_eq)
  finally show ?thesis .
qed

lemma find_map_assigned:
  "find (\<lambda>r. db_id r = k) (map (assigned p js) us) =
     map_option (assigned p js) (find (\<lambda>r. db_id r = k) us)"
  by (induction us) simp_all

lemma find_db_id_Some:
  "k \<in> set (map db_id us) \<Longrightarrow> \<exists>r. find (\<lambda>r. db_id r = k) us = Some r \<and> db_id r = k"
  by (induction us) auto

lemma start_santa_small:
  "length (users d) < 2 \<Longrightarrow> start_santa shuffle d = (d, length (users d))"
  by (simp add: start_santa_def)

lemma start_santa_users:
  "2 \<le> length (users d) \<Longrightarrow>
   users (fst (start_santa shuffle d)) =
     map (assigned (shuffle (map db_id (users d)))
            [0..<length (shuffle (map db_id (users d)))]) (users d)"
  by (simp add: start_santa_def Let_def foldl_assign_step)

lemma shuffle_length:
  "mset (shuffle (map db_id (users d))) = mset (map db_id (users d)) \<Longrightarrow>
   length (shuffle (map db_id (users d))) = length (users d)"
  by (metis length_map size_mset)

lemma shuffle_distinct:
  "mset (shuffle (map db_id (users d))) = mset (map db_id (users d)) \<Longrightarrow>
   distinct (map db_id (users d)) \<Longrightarrow> distinct (shuffle (map db_id (users d)))"
  by (metis distinct_count_atmost_1 set_mset_mset)

lemma shuffle_set:
  "mset (shuffle (map db_id (users d))) = mset (map db_id (users d)) \<Longrightarrow>
   set (shuffle (map db_id (users d))) = set (map db_id (users d))"
  by (metis set_mset_mset)

lemma recipient_after_start:
  assumes ids: "distinct (map db_id (users d))"
    and n: "2 \<le> length (users d)"
    and perm: "mset (shuffle (map db_id (users d))) = mset (map db_id (users d))"
    and i: "i < length (users d)"
  shows "recipient_of (fst (start_santa shuffle d)) (shuffle (map db_id (users d)) ! i) =
           Some (shuffle (map db_id (users d)) ! ((i + 1) mod length (users d)))"
proof -
  let ?p = "shuffle (map db_id (users d))"
  have len: "length ?p = length (users d)"
    using perm by (rule shuffle_length)
  have dist: "distinct ?p"
    using perm ids by (rule shuffle_distinct)
  have "?p ! i \<in> set ?p" using i len by simp
  then have "?p ! i \<in> set (map db_id (users d))"
    using shuffle_set [of shuffle d] perm by simp
  then obtain r where r: "find (\<lambda>r. db_id r = ?p ! i) (users d) = Some r" "db_id r = ?p ! i"
    using find_db_id_Some by blast
  have "assigned ?p [0..<length ?p] r = r\<lparr>santa_id := Some (?p ! ((i + 1) mod length ?p))\<rparr>"
    using filter_index_distinct [OF dist, of i] i len r(2)
    by (simp add: assigned_def Let_def)
  then show ?thesis
    using r(1) n len
    by (simp add: recipient_of_def select_by_id_def start_santa_users find_map_assigned)
qed

subsection \<open>A successor function along a duplicate-free list is one cycle\<close>

lemma cycle_funpow:
  assumes step: "\<And>i. i < length p \<Longrightarrow> f (p ! i) = p ! ((i + 1) mod length p)"
    and i: "i < length p"
  shows "(f ^^ m) (p ! i) = p ! ((i + m) mod length p)"
proof (induction m)
  case 0
  show ?case using i by simp
next
  case (Suc m)
  have "0 < length p" using i by linarith
  then have "(i + m) mod length p < length p" by simp
  then have "f (p ! ((i + m) mod length p)) = p ! (((i + m) mod length p + 1) mod length p)"
    by (rule step)
  also have "((i + m) mod length p + 1) mod length p = (i + Suc m) mod length p"
    by (simp add: mod_Suc_eq)
  finally show ?case by (simp add: Suc)
qed

lemma cycle_no_fixed_point:
  assumes dist: "distinct p" and n: "2 \<le> length p"
    and step: "\<And>i. i < length p \<Longrightarrow> f (p ! i) = p ! ((i + 1) mod length p)"
    and x: "x \<in> set p"
  shows "f x \<noteq> x"
proof -
  obtain i where i: "i < length p" "x = p ! i"
    using x by (auto simp: in_set_conv_nth)
  have ne: "(i + 1) mod length p \<noteq> i"
  proof (cases "i + 1 = length p")
    case True
    then show ?thesis using n by simp
  next
    case False
    then have "i + 1 < length p" using i(1) by simp
    then show ?thesis by simp
  qed
  have "0 < length p" using i(1) by linarith
  then have "(i + 1) mod length p < length p" by simp
  then have "p ! ((i + 1) mod length p) \<noteq> p ! i"
    using dist i(1) ne by (simp add: nth_eq_iff_index_eq)
  then show ?thesis using step [OF i(1)] i(2) by simp
qed

lemma cycle_reaches:
  assumes step: "\<And>i. i < length p \<Longrightarrow> f (p ! i) = p ! ((i + 1) mod length p)"
    and x: "x \<in> set p" and y: "y \<in> set p"
  shows "\<exists>m<length p. (f ^^ m) x = y"
proof -
  obtain i where i: "i < length p" "x = p ! i"
    using x by (auto simp: in_set_conv_nth)
  obtain j where j: "j < length p" "y = p ! j"
    using y by (auto simp: in_set_conv_nth)
  let ?m = "(j + length p - i) mod length p"
  have "(i + ?m) mod length p = (i + (j + length p - i)) mod length p"
    by (simp add: mod_add_right_eq)
  also have "\<dots> = j" using i(1) j(1) by simp
  finally have "(f ^^ ?m) x = y"
    using cycle_funpow [of p f i ?m] step i j(2) by simp
  moreover have "0 < length p" using i(1) by linarith
  then have "?m < length p" by simp
  ultimately show ?thesis by blast
qed

lemma cycle_bij:
  assumes dist: "distinct p"
    and step: "\<And>i. i < length p \<Longrightarrow> f (p ! i) = p ! ((i + 1) mod length p)"
  shows "bij_betw f (set p) (set p)"
proof -
  have sub: "f ` set p \<subseteq> set p"
  proof
    fix y assume "y \<in> f ` set p"
    then obtain i where i: "i < length p" "y = f (p ! i)"
      by (auto simp: in_set_conv_nth)
    have "0 < length p" using i(1) by linarith
    then have "(i + 1) mod length p < length p" by simp
    then show "y \<in> set p" using step [OF i(1)] i(2) by simp
  qed
  have sup: "set p \<subseteq> f ` set p"
  proof
    fix y assume y: "y \<in> set p"
    obtain j where j: "j < length p" "y = p ! j"
      using y by (auto simp: in_set_conv_nth)
    let ?i = "(j + length p - 1) mod length p"
    have "0 < length p" using j(1) by linarith
    then have i: "?i < length p" by simp
    have "(?i + 1) mod length p = (j + length p - 1 + 1) mod length p"
      by (simp add: mod_Suc_eq)
    also have "j + length p - 1 + 1 = j + length p" using j(1) by linarith
    also have "(j + length p) mod length p = j" using j(1) by simp
    finally have "f (p ! ?i) = y" using step [OF i] j(2) by simp
    then show "y \<in> f ` set p" using i by (metis imageI nth_mem)
  qed
  have img: "f ` set p = set p" using sub sup by blast
  then have "inj_on f (set p)"
    by (simp add: eq_card_imp_inj_on)
  then show ?thesis using img by (simp add: bij_betw_def)
qed

section \<open>The assignment engine\<close>

text \<open>
  Claim C1. For a store with at least two participants (distinct ids) and any shuffle
  that rearranges the ids, \<^verbatim>\<open>start_santa\<close> returns the number of participants and
  leaves a receiver mapping in which the participant at shuffled position \<open>i\<close> gives to
  the participant at position \<open>(i + 1) mod n\<close>. Hence every participant has a receiver
  other than themselves, the mapping is a bijection on the ids, and from any id every
  other id is reached by following it fewer than \<open>n\<close> times: it is a single cycle through
  all \<open>n\<close> ids.
\<close>

theorem start_santa_single_cycle:
  assumes ids: "distinct (map db_id (users d))"
    and n: "2 \<le> length (users d)"
    and perm: "mset (shuffle (map db_id (users d))) = mset (map db_id (users d))"
  shows "snd (start_santa shuffle d) = length (users d)
       \<and> map db_id (users (fst (start_santa shuffle d))) = map db_id (users d)
       \<and> (\<forall>i<length (users d).
             recipient_of (fst (start_santa shuffle d)) (shuffle (map db_id (users d)) ! i) =
               Some (shuffle (map db_id (users d)) ! ((i + 1) mod length (users d))))
       \<and> (\<forall>k\<in>set (map db_id (users d)).
             recipient_of (fst (start_santa shuffle d)) k \<noteq> None
           \<and> recipient_of (fst (start_santa shuffle d)) k \<noteq> Some k)
       \<and> bij_betw (\<lambda>k. the (recipient_of (fst (start_santa shuffle d)) k))
            (set (map db_id (users d))) (set (map db_id (users d)))
       \<and> (\<forall>x\<in>set (map db_id (users d)). \<forall>y\<in>set (map db_id (users d)).
             \<exists>m<length (users d).
               ((\<lambda>k. the (recipient_of (fst (start_santa shuffle d)) k)) ^^ m) x = y)"
proof -
  let ?p = "shuffle (map db_id (users d))"
  let ?d = "fst (start_santa shuffle d)"
  let ?f = "\<lambda>k. the (recipient_of ?d k)"
  have len: "length ?p = length (users d)" using perm by (rule shuffle_length)
  have dist: "distinct ?p" using perm ids by (rule shuffle_distinct)
  have set_eq: "set ?p = set (map db_id (users d))"
    using shuffle_set [of shuffle d] perm by simp
  have rec: "recipient_of ?d (?p ! i) = Some (?p ! ((i + 1) mod length ?p))"
    if "i < length ?p" for i
    using recipient_after_start [where shuffle = shuffle and d = d and i = i, OF ids n perm] that len by simp
  have step: "?f (?p ! i) = ?p ! ((i + 1) mod length ?p)" if "i < length ?p" for i
    using rec [OF that] by simp
  have c1: "snd (start_santa shuffle d) = length (users d)"
    using n len by (simp add: start_santa_def Let_def)
  have c2: "map db_id (users ?d) = map db_id (users d)"
    using n by (simp add: start_santa_users)
  have c3: "\<forall>i<length (users d). recipient_of ?d (?p ! i) =
              Some (?p ! ((i + 1) mod length (users d)))"
    using rec len by simp
  have c4: "\<forall>k\<in>set (map db_id (users d)).
              recipient_of ?d k \<noteq> None \<and> recipient_of ?d k \<noteq> Some k"
  proof
    fix k assume "k \<in> set (map db_id (users d))"
    then have k: "k \<in> set ?p" using set_eq by simp
    then obtain i where i: "i < length ?p" "k = ?p ! i"
      by (auto simp: in_set_conv_nth)
    have "?f k \<noteq> k"
      using cycle_no_fixed_point [of ?p ?f k] dist n len step k by simp
    then show "recipient_of ?d k \<noteq> None \<and> recipient_of ?d k \<noteq> Some k"
      using rec [OF i(1)] i(2) by auto
  qed
  have c5: "bij_betw ?f (set (map db_id (users d))) (set (map db_id (users d)))"
    using cycle_bij [of ?p ?f] dist step set_eq by simp
  have c6: "\<forall>x\<in>set (map db_id (users d)). \<forall>y\<in>set (map db_id (users d)).
              \<exists>m<length (users d). (?f ^^ m) x = y"
  proof (intro ballI)
    fix x y assume "x \<in> set (map db_id (users d))" "y \<in> set (map db_id (users d))"
    then have "x \<in> set ?p" "y \<in> set ?p" using set_eq by simp_all
    then show "\<exists>m<length (users d). (?f ^^ m) x = y"
      using cycle_reaches [of ?p ?f x y] step len by simp
  qed
  show ?thesis using c1 c2 c3 c4 c5 c6 by blast
qed

lemma registered_abc_ids: "map db_id (users registered_abc) = [1, 2, 3]"
  by (simp add: registered_abc_def participant_def)

theorem start_santa_single_cycle_witness:
  "recipient_of (fst (start_santa fixed_order registered_abc)) 2 = Some 3
   \<and> recipient_of (fst (start_santa fixed_order registered_abc)) 3 = Some 1
   \<and> recipient_of (fst (start_santa fixed_order registered_abc)) 1 = Some 2
   \<and> snd (start_santa fixed_order registered_abc) = 3"
proof -
  have h1: "distinct (map db_id (users registered_abc))"
    by (simp add: registered_abc_ids)
  have h2: "2 \<le> length (users registered_abc)"
    by (simp add: registered_abc_def)
  have h3: "mset (fixed_order (map db_id (users registered_abc))) =
            mset (map db_id (users registered_abc))"
    by (simp add: registered_abc_ids fixed_order_def)
  have len: "length (users registered_abc) = 3"
    by (simp add: registered_abc_def)
  note t = start_santa_single_cycle [where shuffle = fixed_order and d = registered_abc, OF h1 h2 h3]
  from t have r: "recipient_of (fst (start_santa fixed_order registered_abc))
                       ([2, 3, 1] ! i) = Some ([2, 3, 1] ! ((i + 1) mod 3))" if "i < 3" for i
    using that unfolding len fixed_order_def by blast
  from t have c: "snd (start_santa fixed_order registered_abc) = 3"
    unfolding len by blast
  show ?thesis using r [of 0] r [of 1] r [of 2] c by simp
qed

text \<open>
  Claim C4. With fewer than two participants \<^verbatim>\<open>start_santa\<close> returns the store as it
  was, together with the count of participants, which is not greater than 1: the failure
  signal the caller tests. The \<^verbatim>\<open>/start_event\<close> command of an organizer then sends the
  "at least two participants" message and leaves the store unchanged.
\<close>

theorem start_event_too_few:
  assumes few: "length (users (db s)) < 2" and org: "user_id \<in> set organizers"
  shows "start_santa shuffle (db s) = (db s, length (users (db s)))
       \<and> \<not> 1 < snd (start_santa shuffle (db s))
       \<and> handle_admin_commands organizers shuffle chat ''/start_event'' user_id s =
           (send_message chat NeedTwoParticipants s, None)
       \<and> db (fst (handle_admin_commands organizers shuffle chat ''/start_event'' user_id s)) =
           db s"
proof -
  have a: "start_santa shuffle (db s) = (db s, length (users (db s)))"
    using few by (rule start_santa_small)
  have b: "handle_admin_commands organizers shuffle chat ''/start_event'' user_id s =
           (send_message chat NeedTwoParticipants s, None)"
    using few org by (simp add: handle_admin_commands_def a)
  show ?thesis using a b few by (simp add: send_message_def)
qed

theorem start_event_too_few_witness:
  "db (fst (handle_admin_commands [900] fixed_order 900 ''/start_event'' 900
              (bot_with only_a))) = only_a
   \<and> outbox (fst (handle_admin_commands [900] fixed_order 900 ''/start_event'' 900
                  (bot_with only_a))) = [(900, NeedTwoParticipants)]
   \<and> start_santa fixed_order only_a = (only_a, 1)"
proof -
  have h1: "length (users (db (bot_with only_a))) < 2"
    by (simp add: bot_with_def only_a_def)
  have h2: "(900::int) \<in> set [900]" by simp
  show ?thesis
    using start_event_too_few [where s = "bot_with only_a" and shuffle = fixed_order
        and chat = 900, OF h1 h2]
    by (simp add: bot_with_def send_message_def only_a_def)
qed

text \<open>
  Claim C9. Running \<^verbatim>\<open>start_santa\<close> again on a store that holds assignments (at least
  two participants) gives every participant the receiver of the new cycle, and changes no
  other column of any row: the rows agree with the old ones once \<^verbatim>\<open>santa_id\<close> is
  blanked, in particular \<^verbatim>\<open>gift_delivered\<close> and \<^verbatim>\<open>gift_received\<close> are as before.
\<close>

theorem start_santa_keeps_flags:
  assumes ids: "distinct (map db_id (users d))"
    and n: "2 \<le> length (users d)"
    and perm: "mset (shuffle (map db_id (users d))) = mset (map db_id (users d))"
  shows "(\<forall>i<length (users d).
            recipient_of (fst (start_santa shuffle d)) (shuffle (map db_id (users d)) ! i) =
              Some (shuffle (map db_id (users d)) ! ((i + 1) mod length (users d))))
       \<and> map (\<lambda>r. r\<lparr>santa_id := None\<rparr>) (users (fst (start_santa shuffle d))) =
           map (\<lambda>r. r\<lparr>santa_id := None\<rparr>) (users d)
       \<and> map gift_delivered (users (fst (start_santa shuffle d))) = map gift_delivered (users d)
       \<and> map gift_received (users (fst (start_santa shuffle d))) = map gift_received (users d)
       \<and> is_registration_open (fst (start_santa shuffle d)) = is_registration_open d"
proof -
  let ?d = "fst (start_santa shuffle d)"
  have a: "\<forall>i<length (users d).
            recipient_of ?d (shuffle (map db_id (users d)) ! i) =
              Some (shuffle (map db_id (users d)) ! ((i + 1) mod length (users d)))"
    using recipient_after_start [where shuffle = shuffle and d = d, OF ids n perm] by blast
  have b: "map (\<lambda>r. r\<lparr>santa_id := None\<rparr>) (users ?d) = map (\<lambda>r. r\<lparr>santa_id := None\<rparr>) (users d)"
    using n by (simp add: start_santa_users)
  have "map gift_delivered (map (\<lambda>r. r\<lparr>santa_id := None\<rparr>) (users ?d)) =
        map gift_delivered (map (\<lambda>r. r\<lparr>santa_id := None\<rparr>) (users d))"
    using b by simp
  then have c: "map gift_delivered (users ?d) = map gift_delivered (users d)"
    by (simp add: comp_def)
  have "map gift_received (map (\<lambda>r. r\<lparr>santa_id := None\<rparr>) (users ?d)) =
        map gift_received (map (\<lambda>r. r\<lparr>santa_id := None\<rparr>) (users d))"
    using b by simp
  then have e: "map gift_received (users ?d) = map gift_received (users d)"
    by (simp add: comp_def)
  have f: "is_registration_open ?d = is_registration_open d"
    using n by (simp add: start_santa_def Let_def is_registration_open_def split: option.splits)
  show ?thesis using a b c e f by blast
qed

lemma drawn_abc_ids: "map db_id (users drawn_abc) = [1, 2, 3]"
  by (simp add: drawn_abc_def participant_def)

theorem start_santa_keeps_flags_witness:
  "recipient_of drawn_abc 1 = Some 2
   \<and> recipient_of (fst (start_santa reversed_order drawn_abc)) 1 = Some 3
   \<and> recipient_of (fst (start_santa reversed_order drawn_abc)) 2 = Some 1
   \<and> recipient_of (fst (start_santa reversed_order drawn_abc)) 3 = Some 2
   \<and> map gift_delivered (users (fst (start_santa reversed_order drawn_abc))) = [True, False, False]"
proof -
  have h1: "distinct (map db_id (users drawn_abc))"
    by (simp add: drawn_abc_ids)
  have h2: "2 \<le> length (users drawn_abc)"
    by (simp add: drawn_abc_def)
  have h3: "mset (reversed_order (map db_id (users drawn_abc))) =
            mset (map db_id (users drawn_abc))"
    by (simp add: drawn_abc_ids reversed_order_def)
  have len: "length (users drawn_abc) = 3"
    by (simp add: drawn_abc_def)
  note t = start_santa_keeps_flags [where shuffle = reversed_order and d = drawn_abc, OF h1 h2 h3]
  from t have r: "recipient_of (fst (start_santa reversed_order drawn_abc))
                       ([3, 2, 1] ! i) = Some ([3, 2, 1] ! ((i + 1) mod 3))" if "i < 3" for i
    using that unfolding len reversed_order_def by blast
  from t have c: "map gift_delivered (users (fst (start_santa reversed_order drawn_abc))) =
                  map gift_delivered (users drawn_abc)"
    by blast
  have o: "recipient_of drawn_abc 1 = Some 2"
    by (simp add: recipient_of_def select_by_id_def drawn_abc_def participant_def)
  show ?thesis using r [of 0] r [of 1] r [of 2] c o
    by (simp add: drawn_abc_def participant_def)
qed

section \<open>The router and the handlers\<close>


lemma dispatch_start:
  assumes "message u = Some m" and "text_of m = ''/start''"
  shows "dispatch organizers shuffle u s =
           (handle_start (chat_id m) (from_id m) (first_name m) s, None)"
  using assms by (simp add: dispatch_def startswith_def admin_tokens_def)






lemma show_assignment_frame:
  "user_data (show_assignment chat k s) = user_data s \<and> db (show_assignment chat k s) = db s"
  by (simp add: show_assignment_def send_message_def split: option.splits)

lemma show_assignment_outbox:
  "\<exists>v. outbox (show_assignment chat k s) = outbox s @ [(chat, v)]"
  by (simp add: show_assignment_def send_message_def split: option.splits)

lemma text_update_message:
  "message (text_update k c t) =
     Some \<lparr>chat_id = c, from_id = c, first_name = None, msg_text = Some t\<rparr>"
  by (simp add: text_update_def)

lemma text_of_start:
  "text_of \<lparr>chat_id = c, from_id = c, first_name = None, msg_text = Some ''/start''\<rparr> = ''/start''"
  by (simp add: text_of_def strip_def isspace_def)

text \<open>
  Claim C5. A \<^verbatim>\<open>/start\<close> whose sender already has a row: when the event has started
  the reply is the assignment view of that row, otherwise the already-registered
  confirmation with the row's name and id; either way it is one message to the sender's
  chat. A \<^verbatim>\<open>/start\<close> whose sender has no row while
  registration is closed: the reply is the closed message. In all three cases the
  sessions and the store are as before, so no session is created.
\<close>

theorem start_when_registered_or_closed:
  assumes m: "message u = Some m" "text_of m = ''/start''"
  shows "(\<forall>r. select_by_telegram_id (from_id m) (db s) = Some r \<longrightarrow>
            dispatch organizers shuffle u s =
              (if is_event_started (db s) then show_assignment (chat_id m) (db_id r) s
               else send_message (chat_id m) (AlreadyRegistered (fio r) (db_id r)) s, None)
          \<and> (\<exists>v. outbox (fst (dispatch organizers shuffle u s)) = outbox s @ [(chat_id m, v)])
          \<and> user_data (fst (dispatch organizers shuffle u s)) = user_data s
          \<and> db (fst (dispatch organizers shuffle u s)) = db s)
       \<and> (select_by_telegram_id (from_id m) (db s) = None \<and> \<not> is_registration_open (db s) \<longrightarrow>
            dispatch organizers shuffle u s = (send_message (chat_id m) RegistrationClosed s, None)
          \<and> user_data (fst (dispatch organizers shuffle u s)) = user_data s
          \<and> db (fst (dispatch organizers shuffle u s)) = db s)"
proof (intro conjI allI impI)
  fix r assume r: "select_by_telegram_id (from_id m) (db s) = Some r"
  show d: "dispatch organizers shuffle u s =
          (if is_event_started (db s) then show_assignment (chat_id m) (db_id r) s
           else send_message (chat_id m) (AlreadyRegistered (fio r) (db_id r)) s, None)"
    using r by (simp add: dispatch_start [OF m] handle_start_def)
  show "\<exists>v. outbox (fst (dispatch organizers shuffle u s)) = outbox s @ [(chat_id m, v)]"
    using show_assignment_outbox [of "chat_id m" "db_id r" s]
    by (simp add: d send_message_def)
  show "user_data (fst (dispatch organizers shuffle u s)) = user_data s"
    by (simp add: d show_assignment_frame send_message_def)
  show "db (fst (dispatch organizers shuffle u s)) = db s"
    by (simp add: d show_assignment_frame send_message_def)
next
  assume c: "select_by_telegram_id (from_id m) (db s) = None \<and> \<not> is_registration_open (db s)"
  show d: "dispatch organizers shuffle u s = (send_message (chat_id m) RegistrationClosed s, None)"
    using c by (simp add: dispatch_start [OF m] handle_start_def)
  show "user_data (fst (dispatch organizers shuffle u s)) = user_data s"
    by (simp add: d send_message_def)
  show "db (fst (dispatch organizers shuffle u s)) = db s"
    by (simp add: d send_message_def)
qed

theorem start_when_registered_or_closed_witness:
  "outbox (fst (dispatch [900] fixed_order (text_update 1 101 ''/start'') (bot_with drawn_abc))) =
     [(101, Assignment 2 (Some ''tea''))]
   \<and> outbox (fst (dispatch [900] fixed_order (text_update 1 101 ''/start'')
                (bot_with registered_abc))) = [(101, AlreadyRegistered ''A'' 1)]
   \<and> outbox (fst (dispatch [900] fixed_order (text_update 1 555 ''/start'') (bot_with drawn_abc))) =
       [(555, RegistrationClosed)]
   \<and> user_data (fst (dispatch [900] fixed_order (text_update 1 555 ''/start'')
                   (bot_with drawn_abc))) 555 = None"
proof -
  have r1: "select_by_telegram_id 101 drawn_abc = Some (participant 1 101 ''A'' (Some 2) True)"
    by (simp add: select_by_telegram_id_def drawn_abc_def participant_def)
  have r2: "select_by_telegram_id 101 registered_abc = Some (participant 1 101 ''A'' None False)"
    by (simp add: select_by_telegram_id_def registered_abc_def participant_def)
  have r3: "select_by_telegram_id 555 drawn_abc = None"
    by (simp add: select_by_telegram_id_def drawn_abc_def participant_def)
  have e1: "is_event_started drawn_abc" "\<not> is_registration_open drawn_abc"
    by (simp_all add: is_event_started_def is_registration_open_def drawn_abc_def)
  have e2: "\<not> is_event_started registered_abc"
    by (simp add: is_event_started_def registered_abc_def)
  have v: "show_assignment 101 1 (bot_with drawn_abc) =
             send_message 101 (Assignment 2 (Some ''tea'')) (bot_with drawn_abc)"
    by (simp add: show_assignment_def select_by_id_def bot_with_def drawn_abc_def participant_def)
  note t1 = start_when_registered_or_closed [where organizers = "[900]" and shuffle = fixed_order
      and s = "bot_with drawn_abc",
      OF text_update_message [where k = 1 and c = 101] text_of_start [where c = 101]]
  note t2 = start_when_registered_or_closed [where organizers = "[900]" and shuffle = fixed_order
      and s = "bot_with registered_abc",
      OF text_update_message [where k = 1 and c = 101] text_of_start [where c = 101]]
  note t3 = start_when_registered_or_closed [where organizers = "[900]" and shuffle = fixed_order
      and s = "bot_with drawn_abc",
      OF text_update_message [where k = 1 and c = 555] text_of_start [where c = 555]]
  have a: "dispatch [900] fixed_order (text_update 1 101 ''/start'') (bot_with drawn_abc) =
             (send_message 101 (Assignment 2 (Some ''tea'')) (bot_with drawn_abc), None)"
    using t1 r1 e1 v by (simp add: bot_with_def participant_def)
  have b: "dispatch [900] fixed_order (text_update 1 101 ''/start'') (bot_with registered_abc) =
             (send_message 101 (AlreadyRegistered ''A'' 1) (bot_with registered_abc), None)"
    using t2 r2 e2 by (simp add: bot_with_def participant_def)
  have c: "dispatch [900] fixed_order (text_update 1 555 ''/start'') (bot_with drawn_abc) =
             (send_message 555 RegistrationClosed (bot_with drawn_abc), None)"
    using t3 r3 e1 by (simp add: bot_with_def)
  show ?thesis unfolding a b c by (simp add: send_message_def bot_with_def)
qed

text \<open>
  Claim C10. A \<^verbatim>\<open>/start\<close> from a sender who has a session (at any step, with any
  fields), has no row, while registration is open: the session is replaced by a fresh one
  at the step that collects the name, with no collected fields; the welcome prompt is
  sent, nothing is raised and the store is unchanged.
\<close>

theorem start_replaces_session:
  assumes m: "message u = Some m" "text_of m = ''/start''"
    and sess: "user_data s (from_id m) = Some sess"
    and new: "select_by_telegram_id (from_id m) (db s) = None"
    and opened: "is_registration_open (db s)"
  shows "snd (dispatch organizers shuffle u s) = None
       \<and> user_data (fst (dispatch organizers shuffle u s)) =
           (user_data s)(from_id m \<mapsto> \<lparr>sess_step = Fio, sess_fio = None, sess_group = None\<rparr>)
       \<and> outbox (fst (dispatch organizers shuffle u s)) =
           outbox s @ [(chat_id m, Welcome (first_name m))]
       \<and> db (fst (dispatch organizers shuffle u s)) = db s"
  using new opened
  by (simp add: dispatch_start [OF m] handle_start_def send_message_def)

theorem start_replaces_session_witness:
  "user_data mid_dialogue 555 =
     Some \<lparr>sess_step = Preferences, sess_fio = Some ''D'', sess_group = Some ''G''\<rparr>
   \<and> user_data (fst (dispatch [900] fixed_order (text_update 8 555 ''/start'') mid_dialogue)) 555 =
       Some \<lparr>sess_step = Fio, sess_fio = None, sess_group = None\<rparr>
   \<and> outbox (fst (dispatch [900] fixed_order (text_update 8 555 ''/start'') mid_dialogue)) =
       [(555, Welcome None)]"
proof -
  have h1: "user_data mid_dialogue
              (from_id \<lparr>chat_id = 555, from_id = 555, first_name = None, msg_text = Some ''/start''\<rparr>) =
            Some \<lparr>sess_step = Preferences, sess_fio = Some ''D'', sess_group = Some ''G''\<rparr>"
    by (simp add: mid_dialogue_def)
  have h2: "select_by_telegram_id
              (from_id \<lparr>chat_id = 555, from_id = 555, first_name = None, msg_text = Some ''/start''\<rparr>)
              (db mid_dialogue) = None"
    by (simp add: mid_dialogue_def select_by_telegram_id_def registered_abc_def participant_def)
  have h3: "is_registration_open (db mid_dialogue)"
    by (simp add: mid_dialogue_def is_registration_open_def registered_abc_def)
  show ?thesis
    using start_replaces_session [where organizers = "[900]" and shuffle = fixed_order,
        OF text_update_message [where k = 8 and c = 555] text_of_start [where c = 555] h1 h2 h3] h1
    by (simp add: mid_dialogue_def)
qed









text \<open>
  Claim C2, evaluated. In the store where participant 2 gives to participant 3, the
  organizer's \<^verbatim>\<open>/gift 2\<close> sets \<^verbatim>\<open>gift_delivered\<close> for participant 2 and sends the
  delivery notice to the chat 102 of participant 2, not to the chat 103 of participant 3:
  \<^verbatim>\<open>notify_gift_delivered\<close> is handed the id of the giver and notifies the row with that id.
\<close>

theorem gift_notice_goes_to_marked_id:
  "outbox (fst (dispatch [900] fixed_order (text_update 4 900 ''/gift 2'') (bot_with drawn_abc))) =
     [(900, GiftMarked 2), (102, GiftDeliveredNotice)]
   \<and> map gift_delivered
       (users (db (fst (dispatch [900] fixed_order (text_update 4 900 ''/gift 2'')
                         (bot_with drawn_abc))))) = [True, True, False]
   \<and> recipient_of drawn_abc 2 = Some 3
   \<and> map_option telegram_id (select_by_id 3 drawn_abc) = Some 103
   \<and> map_option telegram_id (select_by_id 2 drawn_abc) = Some 102"
  by (simp add: dispatch_def text_update_def text_of_def strip_def isspace_def startswith_def
      admin_tokens_def handle_admin_commands_def numeric_argument_def split_def item_def
      py_int_def isdigit_def decimal_def mark_gift_delivered_def notify_gift_delivered_def
      sqlite_integer_def send_message_def bot_with_def drawn_abc_def participant_def recipient_of_def
      select_by_id_def)

text \<open>
  Claim C3, evaluated. The bare tokens \<^verbatim>\<open>/del\<close> and \<^verbatim>\<open>/gift\<close>, and \<^verbatim>\<open>/received\<close>
  followed by a space, sent by the organizer, reach the admin handler and match none of its
  branches: nothing is sent and the state is unchanged. A non-numeric argument, in
  contrast, gets the usage message.
\<close>

theorem bare_admin_token_is_silent:
  "dispatch [900] fixed_order (text_update 4 900 ''/del'') (bot_with drawn_abc) =
     (bot_with drawn_abc, None)
   \<and> dispatch [900] fixed_order (text_update 4 900 ''/gift'') (bot_with drawn_abc) =
     (bot_with drawn_abc, None)
   \<and> dispatch [900] fixed_order (text_update 4 900 ''/received '') (bot_with drawn_abc) =
     (bot_with drawn_abc, None)
   \<and> outbox (fst (dispatch [900] fixed_order (text_update 4 900 ''/del x'') (bot_with drawn_abc))) =
     [(900, UsageDel)]"
  by (simp add: dispatch_def text_update_def text_of_def strip_def isspace_def startswith_def
      admin_tokens_def handle_admin_commands_def numeric_argument_def split_def item_def
      py_int_def isdigit_def decimal_def send_message_def bot_with_def)

section \<open>The ingestion loop\<close>

text \<open>No handler touches the cursor.\<close>

lemma send_message_cursor [simp]:
  "last_update_id (send_message chat v s) = last_update_id s"
  by (simp add: send_message_def)

lemma show_assignment_cursor [simp]:
  "last_update_id (show_assignment chat k s) = last_update_id s"
  by (simp add: show_assignment_def split: option.splits)

lemma fold_show_assignment_cursor:
  "last_update_id (foldl (\<lambda>s' u. show_assignment (telegram_id u) (db_id u) s') s us) =
     last_update_id s"
  by (induction us arbitrary: s) simp_all

lemma notify_all_users_cursor [simp]:
  "last_update_id (notify_all_users s) = last_update_id s"
  by (simp add: notify_all_users_def fold_show_assignment_cursor)

lemma notify_gift_delivered_cursor [simp]:
  "last_update_id (fst (notify_gift_delivered k s)) = last_update_id s"
  by (simp add: notify_gift_delivered_def split: option.splits)

lemma handle_start_cursor [simp]:
  "last_update_id (handle_start chat user_id user_name s) = last_update_id s"
  by (simp add: handle_start_def split: option.splits)

lemma handle_message_cursor [simp]:
  "last_update_id (fst (handle_message chat user_id user_name t s)) = last_update_id s"
  by (simp add: handle_message_def Let_def split: option.splits step.splits)

lemma delete_branch_cursor:
  "last_update_id
     (fst (case delete_user k (db s) of
             Inl e \<Rightarrow> (s, Some e)
           | Inr (Some user_info, d) \<Rightarrow>
               (let s1 = send_message chat
                           (UserDeleted (db_id user_info) (fio user_info)
                              (group_name user_info)) (s\<lparr>db := d\<rparr>)
                in if is_event_started (db s1)
                   then (send_message chat RerunAdvice s1, None)
                   else (s1, None))
           | Inr (None, d) \<Rightarrow> (send_message chat DeleteNotFound (s\<lparr>db := d\<rparr>), None))) =
   last_update_id s"
  by (cases "delete_user k (db s)") (auto simp: Let_def split: option.splits)

lemma gift_branch_cursor:
  "last_update_id
     (fst (case mark_gift_delivered k (db s) of
             Inl e \<Rightarrow> (s, Some e)
           | Inr (success, d) \<Rightarrow>
               if success
               then notify_gift_delivered k (send_message chat (GiftMarked k) (s\<lparr>db := d\<rparr>))
               else (send_message chat UserNotFound (s\<lparr>db := d\<rparr>), None))) =
   last_update_id s"
  by (cases "mark_gift_delivered k (db s)") auto

lemma received_branch_cursor:
  "last_update_id
     (fst (case mark_gift_received k (db s) of
             Inl e \<Rightarrow> (s, Some e)
           | Inr (success, d) \<Rightarrow>
               if success
               then (send_message chat (ReceivedMarked k) (s\<lparr>db := d\<rparr>), None)
               else (send_message chat UserNotFound (s\<lparr>db := d\<rparr>), None))) =
   last_update_id s"
  by (cases "mark_gift_received k (db s)") auto

lemma start_event_branch_cursor:
  "last_update_id
     (fst (case start_santa shuffle (db s) of
             (d, cnt) \<Rightarrow>
               if Suc 0 < cnt
               then (notify_all_users (send_message chat (DrawDone cnt) (s\<lparr>db := d\<rparr>)), None)
               else (send_message chat NeedTwoParticipants (s\<lparr>db := d\<rparr>), None))) =
   last_update_id s"
  by (cases "start_santa shuffle (db s)") auto

lemma handle_admin_commands_cursor [simp]:
  "last_update_id (fst (handle_admin_commands organizers shuffle chat t user_id s)) =
     last_update_id s"
proof (cases "numeric_argument t")
  case (Inl e)
  then show ?thesis
    by (simp add: handle_admin_commands_def start_event_branch_cursor)
next
  case (Inr k)
  then show ?thesis
    by (simp add: handle_admin_commands_def start_event_branch_cursor delete_branch_cursor
        gift_branch_cursor received_branch_cursor)
qed

lemma dispatch_cursor:
  "last_update_id (fst (dispatch organizers shuffle u s)) = last_update_id s"
  by (simp add: dispatch_def Let_def split: option.splits)

lemma process_updates_append:
  "process_updates organizers shuffle (pre @ post) s =
     (case process_updates organizers shuffle pre s of
        (s1, Some e) \<Rightarrow> (s1, Some e)
      | (s1, None) \<Rightarrow> process_updates organizers shuffle post s1)"
  by (induction pre arbitrary: s) (simp_all split: prod.splits option.splits)

lemma process_updates_last:
  "us \<noteq> [] \<Longrightarrow> snd (process_updates organizers shuffle us s) = None \<Longrightarrow>
   last_update_id (fst (process_updates organizers shuffle us s)) = update_id (last us)"
proof (induction us arbitrary: s)
  case Nil
  then show ?case by simp
next
  case (Cons u us)
  obtain s' r where d: "dispatch organizers shuffle u (s\<lparr>last_update_id := update_id u\<rparr>) = (s', r)"
    by (cases "dispatch organizers shuffle u (s\<lparr>last_update_id := update_id u\<rparr>)")
  have cur: "last_update_id s' = update_id u"
    using dispatch_cursor [of organizers shuffle u "s\<lparr>last_update_id := update_id u\<rparr>"] d by simp
  show ?case
  proof (cases r)
    case (Some e)
    then show ?thesis using Cons.prems d by simp
  next
    case None
    show ?thesis
    proof (cases "us = []")
      case True
      then show ?thesis using d None cur by simp
    next
      case False
      then show ?thesis using Cons.IH [of s'] Cons.prems d None by simp
    qed
  qed
qed

lemma two_updates_run:
  "process_updates [900] fixed_order
     [text_update 11 101 ''/help'', text_update 12 555 ''hello''] (bot_with registered_abc) =
   (\<lparr>last_update_id = 12, user_data = Map.empty, db = registered_abc,
     outbox = [(101, Help), (555, UseStart)]\<rparr>, None)"
  by (simp add: dispatch_def text_update_def text_of_def strip_def isspace_def startswith_def
      admin_tokens_def handle_message_def send_message_def bot_with_def)

lemma process_updates_stops:
  "us \<noteq> [] \<Longrightarrow>
   \<exists>pre u post. us = pre @ u # post
     \<and> last_update_id (fst (process_updates organizers shuffle us s)) = update_id u
     \<and> (snd (process_updates organizers shuffle us s) = None \<longrightarrow> post = [])"
proof (induction us arbitrary: s)
  case Nil
  then show ?case by simp
next
  case (Cons u us)
  obtain s' r where d: "dispatch organizers shuffle u (s\<lparr>last_update_id := update_id u\<rparr>) = (s', r)"
    by (cases "dispatch organizers shuffle u (s\<lparr>last_update_id := update_id u\<rparr>)")
  have cur: "last_update_id s' = update_id u"
    using dispatch_cursor [of organizers shuffle u "s\<lparr>last_update_id := update_id u\<rparr>"] d by simp
  show ?case
  proof (cases r)
    case (Some e)
    show ?thesis
      by (rule exI [of _ "[]"], rule exI [of _ u], rule exI [of _ us]) (simp add: d Some cur)
  next
    case None
    show ?thesis
    proof (cases "us = []")
      case True
      show ?thesis
        by (rule exI [of _ "[]"], rule exI [of _ u], rule exI [of _ "[]"])
          (simp add: d None cur True)
    next
      case False
      obtain pre v post where v: "us = pre @ v # post"
        "last_update_id (fst (process_updates organizers shuffle us s')) = update_id v"
        "snd (process_updates organizers shuffle us s') = None \<longrightarrow> post = []"
        using Cons.IH [OF False, of s'] by (elim exE conjE) (rule that)
      have same: "process_updates organizers shuffle (u # us) s =
                  process_updates organizers shuffle us s'"
        using d None by simp
      have a: "u # us = (u # pre) @ v # post"
        using v(1) by simp
      have b: "last_update_id (fst (process_updates organizers shuffle (u # us) s)) = update_id v"
        unfolding same by (rule v(2))
      have c: "snd (process_updates organizers shuffle (u # us) s) = None \<longrightarrow> post = []"
        unfolding same by (rule v(3))
      show ?thesis
        by (rule exI [of _ "u # pre"], rule exI [of _ v], rule exI [of _ post])
          (intro conjI a b c)
    qed
  qed
qed

lemma overflow_run:
  "process_updates [900] fixed_order
     [text_update 21 900 ''/gift 99999999999999999999'', text_update 22 900 ''/help'']
     (bot_with drawn_abc) =
   (\<lparr>last_update_id = 21, user_data = Map.empty, db = drawn_abc, outbox = []\<rparr>,
    Some OverflowError)"
  by (simp add: dispatch_def text_update_def text_of_def strip_def isspace_def startswith_def
      admin_tokens_def handle_admin_commands_def numeric_argument_def split_def item_def
      py_int_def isdigit_def decimal_def mark_gift_delivered_def sqlite_integer_def
      bot_with_def)

text \<open>
  Claim C6. In a batch \<open>pre @ u # post\<close> the updates are taken in order: \<open>u\<close> is
  dispatched after those of \<open>pre\<close>, in the state they left with the cursor already set to
  the id of \<open>u\<close>, and those of \<open>post\<close> follow unless an exception ended the loop. The
  dispatch leaves the cursor alone, so it is the id of \<open>u\<close> when the dispatch returns or
  raises. Hence after a batch the cursor is the id of the update at which the loop ended,
  the last one if nothing was raised. A poll asks for the offset \<open>last_update_id + 1\<close>,
  which lies strictly above the cursor.
\<close>

theorem cursor_advanced_before_dispatch:
  "process_updates organizers shuffle (pre @ u # post) s =
     (case process_updates organizers shuffle pre s of
        (s1, Some e) \<Rightarrow> (s1, Some e)
      | (s1, None) \<Rightarrow>
          (case dispatch organizers shuffle u (s1\<lparr>last_update_id := update_id u\<rparr>) of
             (s2, Some e) \<Rightarrow> (s2, Some e)
           | (s2, None) \<Rightarrow> process_updates organizers shuffle post s2))
   \<and> last_update_id (fst (dispatch organizers shuffle u (s1\<lparr>last_update_id := update_id u\<rparr>))) =
       update_id u
   \<and> (us \<noteq> [] \<longrightarrow>
        (\<exists>before v after. us = before @ v # after
           \<and> last_update_id (fst (process_updates organizers shuffle us s)) = update_id v
           \<and> (snd (process_updates organizers shuffle us s) = None \<longrightarrow> after = [])))
   \<and> (us \<noteq> [] \<and> snd (process_updates organizers shuffle us s) = None \<longrightarrow>
        last_update_id (fst (process_updates organizers shuffle us s)) = update_id (last us))
   \<and> offset (get_updates_params s) = last_update_id s + 1
   \<and> last_update_id s < offset (get_updates_params s)"
proof -
  have a: "process_updates organizers shuffle (pre @ u # post) s =
     (case process_updates organizers shuffle pre s of
        (s1, Some e) \<Rightarrow> (s1, Some e)
      | (s1, None) \<Rightarrow>
          (case dispatch organizers shuffle u (s1\<lparr>last_update_id := update_id u\<rparr>) of
             (s2, Some e) \<Rightarrow> (s2, Some e)
           | (s2, None) \<Rightarrow> process_updates organizers shuffle post s2))"
    by (simp add: process_updates_append split: prod.splits option.splits)
  have b: "last_update_id (fst (dispatch organizers shuffle u (s1\<lparr>last_update_id := update_id u\<rparr>))) =
       update_id u"
    by (simp add: dispatch_cursor)
  have c: "us \<noteq> [] \<longrightarrow>
        (\<exists>before v after. us = before @ v # after
           \<and> last_update_id (fst (process_updates organizers shuffle us s)) = update_id v
           \<and> (snd (process_updates organizers shuffle us s) = None \<longrightarrow> after = []))"
    using process_updates_stops [of us organizers shuffle s] by (intro impI)
  have d: "us \<noteq> [] \<and> snd (process_updates organizers shuffle us s) = None \<longrightarrow>
        last_update_id (fst (process_updates organizers shuffle us s)) = update_id (last us)"
    using process_updates_last [of us organizers shuffle s] by (intro impI) simp
  have e: "offset (get_updates_params s) = last_update_id s + 1
         \<and> last_update_id s < offset (get_updates_params s)"
    by (simp add: get_updates_params_def)
  show ?thesis by (intro conjI a b c d) (simp_all add: e)
qed

theorem cursor_advanced_before_dispatch_witness:
  "last_update_id (fst (process_updates [900] fixed_order
      [text_update 11 101 ''/help'', text_update 12 555 ''hello''] (bot_with registered_abc))) = 12
   \<and> offset (get_updates_params (fst (process_updates [900] fixed_order
      [text_update 11 101 ''/help'', text_update 12 555 ''hello''] (bot_with registered_abc)))) = 13
   \<and> outbox (fst (process_updates [900] fixed_order
      [text_update 11 101 ''/help'', text_update 12 555 ''hello''] (bot_with registered_abc))) =
       [(101, Help), (555, UseStart)]
   \<and> process_updates [900] fixed_order
        [text_update 21 900 ''/gift 99999999999999999999'', text_update 22 900 ''/help'']
        (bot_with drawn_abc) =
       (\<lparr>last_update_id = 21, user_data = Map.empty, db = drawn_abc, outbox = []\<rparr>,
        Some OverflowError)"
proof -
  let ?us = "[text_update 11 101 ''/help'', text_update 12 555 ''hello'']"
  let ?s = "bot_with registered_abc"
  have h1: "?us \<noteq> []" by simp
  have h2: "snd (process_updates [900] fixed_order ?us ?s) = None"
    by (simp only: two_updates_run snd_conv)
  have l: "update_id (last ?us) = 12"
    by (simp add: text_update_def)
  have o: "outbox (fst (process_updates [900] fixed_order ?us ?s)) = [(101, Help), (555, UseStart)]"
    by (simp only: two_updates_run fst_conv bot.simps)
  have "last_update_id (fst (process_updates [900] fixed_order ?us ?s)) = update_id (last ?us)"
    using cursor_advanced_before_dispatch [where organizers = "[900]" and shuffle = fixed_order
        and us = ?us and s = ?s] h1 h2
    by blast
  then have c: "last_update_id (fst (process_updates [900] fixed_order ?us ?s)) = 12"
    using l by simp
  have p: "offset (get_updates_params (fst (process_updates [900] fixed_order ?us ?s))) = 13"
    using c by (simp add: get_updates_params_def)
  show ?thesis using c p o overflow_run by simp
qed

end
